theory Spec2Isabelle
  imports Main "HOL-Library.AList"
begin

section \<open>Python values and the operations the inventory module applies to them\<close>

text \<open>
  The module \<^verbatim>\<open>inventory_system.py\<close> keeps one global, \<^verbatim>\<open>stock_data\<close>. It starts as an
  empty dict, \<^verbatim>\<open>add_item\<close> and \<^verbatim>\<open>remove_item\<close> mutate it, and \<^verbatim>\<open>load_data\<close> rebinds it to
  whatever \<^verbatim>\<open>json.loads\<close> returns. The values are therefore the JSON-shaped Python values:
  \<^verbatim>\<open>None\<close>, booleans, integers (unbounded), strings, lists and dicts. Every dict the module
  can hold has \<^verbatim>\<open>str\<close> keys (\<^verbatim>\<open>json.loads\<close> produces no others and \<^verbatim>\<open>add_item\<close> stores only
  under a \<^verbatim>\<open>str\<close>), so a dict is an association list keyed by strings, in insertion order.
  Floating-point numbers are left out of the value universe.

  A \<^verbatim>\<open>str\<close> is a list of characters. The operations of the module compare characters and
  look no further into them, so the type \<open>'c\<close> of characters is a parameter: the
  properties below hold for every type of characters. The JSON text format, further down,
  takes the Unicode code points (as integers) for \<open>'c\<close>; a literal such as \<open>''apple''\<close> takes
  the characters of Isabelle.
\<close>

datatype 'c pyval =
    PNone
  | PBool bool
  | PInt int
  | PStr "'c list"
  | PList "'c pyval list"
  | PDict "('c list \<times> 'c pyval) list"

datatype exn =
    TypeError
  | KeyError
  | IndexError
  | AttributeError
  | FileNotFoundError
  | PermissionError
  | UnicodeDecodeError
  | JSONDecodeError

text \<open>\<^verbatim>\<open>isinstance(x, str)\<close> and \<^verbatim>\<open>isinstance(x, int)\<close>; \<^verbatim>\<open>bool\<close> is a subclass of \<^verbatim>\<open>int\<close>.\<close>

fun is_str :: "'c pyval \<Rightarrow> bool" where
  "is_str (PStr s) = True"
| "is_str v = False"

fun is_int :: "'c pyval \<Rightarrow> bool" where
  "is_int (PInt i) = True"
| "is_int (PBool b) = True"
| "is_int v = False"

text \<open>The characters of a \<^verbatim>\<open>str\<close>.\<close>

fun str_value :: "'c pyval \<Rightarrow> 'c list" where
  "str_value (PStr s) = s"
| "str_value v = []"

text \<open>The integer value of an \<^verbatim>\<open>int\<close> (or \<^verbatim>\<open>bool\<close>) operand of arithmetic and comparison.\<close>

fun num_of :: "'c pyval \<Rightarrow> int option" where
  "num_of (PInt i) = Some i"
| "num_of (PBool b) = Some (if b then 1 else 0)"
| "num_of v = None"

text \<open>\<^verbatim>\<open>not x\<close>: the truth value of \<^verbatim>\<open>x\<close>, negated.\<close>

fun py_not :: "'c pyval \<Rightarrow> bool" where
  "py_not PNone = True"
| "py_not (PBool b) = (\<not> b)"
| "py_not (PInt i) = (i = 0)"
| "py_not (PStr s) = (s = [])"
| "py_not (PList xs) = (xs = [])"
| "py_not (PDict kvs) = (kvs = [])"

text \<open>Lists and dicts are unhashable: using one as a dict key raises \<^verbatim>\<open>TypeError\<close>.\<close>

fun hashable :: "'c pyval \<Rightarrow> bool" where
  "hashable (PList xs) = False"
| "hashable (PDict kvs) = False"
| "hashable v = True"

text \<open>\<^verbatim>\<open>a + b\<close> and \<^verbatim>\<open>a - b\<close>.\<close>

definition py_add :: "'c pyval \<Rightarrow> 'c pyval \<Rightarrow> exn + 'c pyval" where
  "py_add a b =
     (case (num_of a, num_of b) of
        (Some x, Some y) \<Rightarrow> Inr (PInt (x + y))
      | _ \<Rightarrow>
        (case (a, b) of
           (PStr s, PStr t) \<Rightarrow> Inr (PStr (s @ t))
         | (PList xs, PList ys) \<Rightarrow> Inr (PList (xs @ ys))
         | _ \<Rightarrow> Inl TypeError))"

definition py_sub :: "'c pyval \<Rightarrow> 'c pyval \<Rightarrow> exn + 'c pyval" where
  "py_sub a b =
     (case (num_of a, num_of b) of
        (Some x, Some y) \<Rightarrow> Inr (PInt (x - y))
      | _ \<Rightarrow> Inl TypeError)"

text \<open>\<^verbatim>\<open>v < t\<close> and \<^verbatim>\<open>v <= t\<close> against an integer \<^verbatim>\<open>t\<close>.\<close>

definition py_lt :: "'c pyval \<Rightarrow> int \<Rightarrow> exn + bool" where
  "py_lt v t = (case num_of v of Some x \<Rightarrow> Inr (x < t) | None \<Rightarrow> Inl TypeError)"

definition py_le :: "'c pyval \<Rightarrow> int \<Rightarrow> exn + bool" where
  "py_le v t = (case num_of v of Some x \<Rightarrow> Inr (x \<le> t) | None \<Rightarrow> Inl TypeError)"

text \<open>
  Sequence indexing: the index must be an \<^verbatim>\<open>int\<close>, a negative one counts from the end, and
  one out of range raises \<^verbatim>\<open>IndexError\<close>.
\<close>

definition seq_index :: "nat \<Rightarrow> 'c pyval \<Rightarrow> exn + nat" where
  "seq_index n key =
     (case num_of key of
        None \<Rightarrow> Inl TypeError
      | Some i \<Rightarrow>
        (let j = (if i < 0 then i + int n else i)
         in if 0 \<le> j \<and> j < int n then Inr (nat j) else Inl IndexError))"

text \<open>\<^verbatim>\<open>obj.get(key, default)\<close>: only a dict has the method.\<close>

definition py_get :: "'c pyval \<Rightarrow> 'c pyval \<Rightarrow> 'c pyval \<Rightarrow> exn + 'c pyval" where
  "py_get obj key dflt =
     (case obj of
        PDict kvs \<Rightarrow>
          (if \<not> hashable key then Inl TypeError
           else (case key of
                   PStr k \<Rightarrow> Inr (case map_of kvs k of None \<Rightarrow> dflt | Some v \<Rightarrow> v)
                 | _ \<Rightarrow> Inr dflt))
      | _ \<Rightarrow> Inl AttributeError)"

text \<open>\<^verbatim>\<open>obj[key]\<close>.\<close>

definition py_getitem :: "'c pyval \<Rightarrow> 'c pyval \<Rightarrow> exn + 'c pyval" where
  "py_getitem obj key =
     (case obj of
        PDict kvs \<Rightarrow>
          (if \<not> hashable key then Inl TypeError
           else (case key of
                   PStr k \<Rightarrow> (case map_of kvs k of None \<Rightarrow> Inl KeyError | Some v \<Rightarrow> Inr v)
                 | _ \<Rightarrow> Inl KeyError))
      | PList xs \<Rightarrow>
          (case seq_index (length xs) key of Inl e \<Rightarrow> Inl e | Inr j \<Rightarrow> Inr (xs ! j))
      | PStr s \<Rightarrow>
          (case seq_index (length s) key of Inl e \<Rightarrow> Inl e | Inr j \<Rightarrow> Inr (PStr [s ! j]))
      | _ \<Rightarrow> Inl TypeError)"

text \<open>\<^verbatim>\<open>obj[key] = v\<close> for a key that is a \<^verbatim>\<open>str\<close>, as at its one call site in \<^verbatim>\<open>add_item\<close>.\<close>

definition py_setitem :: "'c pyval \<Rightarrow> 'c list \<Rightarrow> 'c pyval \<Rightarrow> exn + 'c pyval" where
  "py_setitem obj k v =
     (case obj of
        PDict kvs \<Rightarrow> Inr (PDict (AList.update k v kvs))
      | _ \<Rightarrow> Inl TypeError)"

text \<open>
  \<^verbatim>\<open>obj[key] -= q\<close>: read the slot, subtract, store back into the same slot. A string has
  no item assignment.
\<close>

definition py_isub_item :: "'c pyval \<Rightarrow> 'c pyval \<Rightarrow> 'c pyval \<Rightarrow> exn + 'c pyval" where
  "py_isub_item obj key q =
     (case obj of
        PDict kvs \<Rightarrow>
          (if \<not> hashable key then Inl TypeError
           else (case key of
                   PStr k \<Rightarrow>
                     (case map_of kvs k of
                        None \<Rightarrow> Inl KeyError
                      | Some cur \<Rightarrow>
                        (case py_sub cur q of
                           Inl e \<Rightarrow> Inl e
                         | Inr new \<Rightarrow> Inr (PDict (AList.update k new kvs))))
                 | _ \<Rightarrow> Inl KeyError))
      | PList xs \<Rightarrow>
          (case seq_index (length xs) key of
             Inl e \<Rightarrow> Inl e
           | Inr j \<Rightarrow>
             (case py_sub (xs ! j) q of
                Inl e \<Rightarrow> Inl e
              | Inr new \<Rightarrow> Inr (PList (xs[j := new]))))
      | PStr s \<Rightarrow>
          (case seq_index (length s) key of
             Inl e \<Rightarrow> Inl e
           | Inr j \<Rightarrow>
             (case py_sub (PStr [s ! j]) q of
                Inl e \<Rightarrow> Inl e
              | Inr new \<Rightarrow> Inl TypeError))
      | _ \<Rightarrow> Inl TypeError)"

text \<open>\<^verbatim>\<open>del obj[key]\<close>.\<close>

definition py_delitem :: "'c pyval \<Rightarrow> 'c pyval \<Rightarrow> exn + 'c pyval" where
  "py_delitem obj key =
     (case obj of
        PDict kvs \<Rightarrow>
          (if \<not> hashable key then Inl TypeError
           else (case key of
                   PStr k \<Rightarrow>
                     (case map_of kvs k of
                        None \<Rightarrow> Inl KeyError
                      | Some v \<Rightarrow> Inr (PDict (AList.delete k kvs)))
                 | _ \<Rightarrow> Inl KeyError))
      | PList xs \<Rightarrow>
          (case seq_index (length xs) key of
             Inl e \<Rightarrow> Inl e
           | Inr j \<Rightarrow> Inr (PList (take j xs @ drop (Suc j) xs)))
      | _ \<Rightarrow> Inl TypeError)"

text \<open>\<^verbatim>\<open>for item in obj\<close>: a dict yields its keys, a list its elements, a string its characters.\<close>

definition py_iter :: "'c pyval \<Rightarrow> exn + 'c pyval list" where
  "py_iter obj =
     (case obj of
        PDict kvs \<Rightarrow> Inr (map (\<lambda>kv. PStr (fst kv)) kvs)
      | PList xs \<Rightarrow> Inr xs
      | PStr s \<Rightarrow> Inr (map (\<lambda>c. PStr [c]) s)
      | _ \<Rightarrow> Inl TypeError)"

section \<open>The state of the module\<close>

text \<open>
  The state is the global \<^verbatim>\<open>stock_data\<close>, what the calls to \<^verbatim>\<open>logging\<close> have reported so
  far, and the files that \<^verbatim>\<open>load_data\<close> and \<^verbatim>\<open>save_data\<close> open. A path is in one of five
  conditions: nothing is there (\<open>Missing\<close>: reading raises \<^verbatim>\<open>FileNotFoundError\<close>, writing
  creates the file), its directory does not exist (\<open>NoDirectory\<close>: both raise
  \<^verbatim>\<open>FileNotFoundError\<close>), it may not be opened (\<open>Locked\<close>: both raise
  \<^verbatim>\<open>PermissionError\<close>), its bytes are not UTF-8 (\<open>Undecodable\<close>: \<^verbatim>\<open>f.read()\<close> raises
  \<^verbatim>\<open>UnicodeDecodeError\<close>), or it holds a text. A path is a name and nothing more: it is
  kept as an Isabelle string.
\<close>

datatype level = INFO | WARNING | ERROR

datatype 'c message =
    InvalidTypes "'c pyval" "'c pyval"
  | StockReachedZero "'c pyval"
  | RemoveNonExistent "'c pyval"
  | DataLoaded
  | FileNotFound string
  | DecodeFailed
  | DataSaved
  | SaveFailed exn

datatype 'c fnode = Missing | NoDirectory | Locked | Undecodable | Text "'c list"

record 'c state =
  stock_data :: "'c pyval"
  journal :: "(level \<times> 'c message) list"
  files :: "string \<Rightarrow> 'c fnode"

definition logging :: "level \<Rightarrow> 'c message \<Rightarrow> 'c state \<Rightarrow> 'c state" where
  "logging lv m st = st\<lparr>journal := journal st @ [(lv, m)]\<rparr>"

text \<open>The module as imported: \<^verbatim>\<open>stock_data = {}\<close>, nothing reported, no file anywhere.\<close>

definition initial_state :: "'c state" where
  "initial_state = \<lparr>stock_data = PDict [], journal = [], files = (\<lambda>p. Missing)\<rparr>"

text \<open>
  \<^verbatim>\<open>OSError\<close> and its subclasses, for the \<^verbatim>\<open>except OSError\<close> of \<^verbatim>\<open>save_data\<close>.
\<close>

fun is_OSError :: "exn \<Rightarrow> bool" where
  "is_OSError FileNotFoundError = True"
| "is_OSError PermissionError = True"
| "is_OSError e = False"

section \<open>The operations\<close>

text \<open>
  An entry of the caller's audit list: \<^verbatim>\<open>f"{datetime.now()}: Added {qty} of {item}"\<close>, as
  the two values it is made of; the time stamp and the formatting are left out.
\<close>

datatype 'c audit = Added "'c pyval" "'c pyval"

text \<open>
  \<^verbatim>\<open>add_item(item, qty, logs=None)\<close>. The result is the list \<^verbatim>\<open>logs\<close> as the call leaves it;
  an exception leaves both the list and the state as they were.
\<close>

definition add_item ::
  "'c pyval \<Rightarrow> 'c pyval \<Rightarrow> 'c audit list option \<Rightarrow> 'c state \<Rightarrow> (exn + 'c audit list) \<times> 'c state" where
  "add_item item qty logs st =
     (let logs1 = (case logs of None \<Rightarrow> [] | Some l \<Rightarrow> l)
      in if \<not> is_str item \<or> \<not> is_int qty
         then (Inr logs1, logging WARNING (InvalidTypes item qty) st)
         else if py_not item then (Inr logs1, st)
         else (case py_get (stock_data st) item (PInt 0) of
                 Inl e \<Rightarrow> (Inl e, st)
               | Inr cur \<Rightarrow>
                 (case py_add cur qty of
                    Inl e \<Rightarrow> (Inl e, st)
                  | Inr new \<Rightarrow>
                    (case py_setitem (stock_data st) (str_value item) new of
                       Inl e \<Rightarrow> (Inl e, st)
                     | Inr sd \<Rightarrow> (Inr (logs1 @ [Added qty item]), st\<lparr>stock_data := sd\<rparr>)))))"

text \<open>
  \<^verbatim>\<open>remove_item(item, qty)\<close>. The \<^verbatim>\<open>try\<close> body runs statement by statement on the state; the
  handler catches \<^verbatim>\<open>KeyError\<close> only, in the state the exception left.
\<close>

definition except_KeyError :: "'c pyval \<Rightarrow> exn \<Rightarrow> 'c state \<Rightarrow> (exn + unit) \<times> 'c state" where
  "except_KeyError item e st =
     (if e = KeyError then (Inr (), logging WARNING (RemoveNonExistent item) st)
      else (Inl e, st))"

definition remove_item :: "'c pyval \<Rightarrow> 'c pyval \<Rightarrow> 'c state \<Rightarrow> (exn + unit) \<times> 'c state" where
  "remove_item item qty st =
     (case py_isub_item (stock_data st) item qty of
        Inl e \<Rightarrow> except_KeyError item e st
      | Inr sd1 \<Rightarrow>
        (let st1 = st\<lparr>stock_data := sd1\<rparr>
         in case py_getitem sd1 item of
              Inl e \<Rightarrow> except_KeyError item e st1
            | Inr v \<Rightarrow>
              (case py_le v 0 of
                 Inl e \<Rightarrow> except_KeyError item e st1
               | Inr b \<Rightarrow>
                 if b
                 then (case py_delitem sd1 item of
                         Inl e \<Rightarrow> except_KeyError item e st1
                       | Inr sd2 \<Rightarrow>
                         (Inr (), logging INFO (StockReachedZero item) (st1\<lparr>stock_data := sd2\<rparr>)))
                 else (Inr (), st1))))"

text \<open>\<^verbatim>\<open>get_qty(item)\<close>.\<close>

definition get_qty :: "'c pyval \<Rightarrow> 'c state \<Rightarrow> exn + 'c pyval" where
  "get_qty item st = py_get (stock_data st) item (PInt 0)"

text \<open>
  \<^verbatim>\<open>check_low_items(threshold=5)\<close>, for an integer threshold. The loop appends to \<^verbatim>\<open>result\<close>
  each item whose entry is below the threshold.
\<close>

fun low_loop :: "'c pyval \<Rightarrow> int \<Rightarrow> 'c pyval list \<Rightarrow> 'c pyval list \<Rightarrow> exn + 'c pyval list" where
  "low_loop sd threshold [] result = Inr result"
| "low_loop sd threshold (item # items) result =
     (case py_getitem sd item of
        Inl e \<Rightarrow> Inl e
      | Inr v \<Rightarrow>
        (case py_lt v threshold of
           Inl e \<Rightarrow> Inl e
         | Inr b \<Rightarrow> low_loop sd threshold items (if b then result @ [item] else result)))"

definition check_low_items :: "int \<Rightarrow> 'c state \<Rightarrow> exn + 'c pyval list" where
  "check_low_items threshold st =
     (case py_iter (stock_data st) of
        Inl e \<Rightarrow> Inl e
      | Inr items \<Rightarrow> low_loop (stock_data st) threshold items [])"

definition default_threshold :: int where
  "default_threshold = 5"

text \<open>
  \<^verbatim>\<open>load_data(file)\<close> and \<^verbatim>\<open>save_data(file)\<close>. \<^verbatim>\<open>json.loads\<close> and \<^verbatim>\<open>json.dumps(_, indent=4)\<close>
  belong to the standard library, not to the module: they are the parameters \<open>loads\<close> (which
  answers \<^verbatim>\<open>JSONDecodeError\<close> on a text that is not JSON) and \<open>dumps\<close>.
\<close>

definition read_text :: "'c state \<Rightarrow> string \<Rightarrow> exn + 'c list" where
  "read_text st path =
     (case files st path of
        Missing \<Rightarrow> Inl FileNotFoundError
      | NoDirectory \<Rightarrow> Inl FileNotFoundError
      | Locked \<Rightarrow> Inl PermissionError
      | Undecodable \<Rightarrow> Inl UnicodeDecodeError
      | Text content \<Rightarrow> Inr content)"

definition write_text :: "'c state \<Rightarrow> string \<Rightarrow> 'c list \<Rightarrow> exn + 'c state" where
  "write_text st path content =
     (case files st path of
        NoDirectory \<Rightarrow> Inl FileNotFoundError
      | Locked \<Rightarrow> Inl PermissionError
      | _ \<Rightarrow> Inr (st\<lparr>files := (files st)(path := Text content)\<rparr>))"

definition load_data ::
  "('c list \<Rightarrow> exn + 'c pyval) \<Rightarrow> string \<Rightarrow> 'c state \<Rightarrow> (exn + unit) \<times> 'c state" where
  "load_data loads path st =
     (case (case read_text st path of Inl e \<Rightarrow> Inl e | Inr content \<Rightarrow> loads content) of
        Inr v \<Rightarrow> (Inr (), logging INFO DataLoaded (st\<lparr>stock_data := v\<rparr>))
      | Inl e \<Rightarrow>
          if e = FileNotFoundError then (Inr (), logging WARNING (FileNotFound path) st)
          else if e = JSONDecodeError then (Inr (), logging ERROR DecodeFailed st)
          else (Inl e, st))"

definition save_data ::
  "('c pyval \<Rightarrow> 'c list) \<Rightarrow> string \<Rightarrow> 'c state \<Rightarrow> (exn + unit) \<times> 'c state" where
  "save_data dumps path st =
     (case write_text st path (dumps (stock_data st)) of
        Inr st1 \<Rightarrow> (Inr (), logging INFO DataSaved st1)
      | Inl e \<Rightarrow>
          if is_OSError e then (Inr (), logging ERROR (SaveFailed e) st)
          else (Inl e, st))"

definition default_file :: string where
  "default_file = ''inventory.json''"

section \<open>The JSON text of a value\<close>

text \<open>
  A character of Python is a Unicode code point, an integer from 0 to \<^verbatim>\<open>0x10FFFF\<close>; the
  surrogates \<^verbatim>\<open>0xD800\<close> to \<^verbatim>\<open>0xDFFF\<close> are among them. From here on the characters are these
  integers, and a text is a list of them. \<open>json_dumps\<close> and \<open>json_loads\<close> are
  \<^verbatim>\<open>json.dumps(_, indent=4)\<close> and \<^verbatim>\<open>json.loads\<close> on the value universe of this theory; they
  instantiate the parameters of \<open>save_data\<close> and \<open>load_data\<close>. Two limits of the interpreter
  are not modelled: the one on the digits of an integer that is converted to or from
  decimal, and the one on the depth of recursion.
\<close>

definition cp :: "char \<Rightarrow> int" where
  "cp c = of_char c"

definition str :: "string \<Rightarrow> int list" where
  "str s = map cp s"

definition is_char :: "int \<Rightarrow> bool" where
  "is_char c = (0 \<le> c \<and> c < 0x110000)"

definition high_surrogate :: "int \<Rightarrow> bool" where
  "high_surrogate c = (0xD800 \<le> c \<and> c \<le> 0xDBFF)"

definition low_surrogate :: "int \<Rightarrow> bool" where
  "low_surrogate c = (0xDC00 \<le> c \<and> c \<le> 0xDFFF)"

text \<open>The characters the format names: the double quote, the backslash and the line feed.\<close>

definition dquote :: int where
  "dquote = 0x22"

definition backslash :: int where
  "backslash = 0x5C"

definition newline :: int where
  "newline = 0x0A"

text \<open>
  Writing. A string is quoted with every character outside the printable ASCII range, the
  quote and the backslash escaped (\<^verbatim>\<open>ensure_ascii\<close>): a short escape where there is one,
  \<^verbatim>\<open>\uXXXX\<close> below \<^verbatim>\<open>0x10000\<close>, and a pair of surrogate escapes from there on. An integer is
  written in decimal; a non-empty list or dict puts each element on a line of its own,
  indented by four spaces per nesting level, with \<^verbatim>\<open>,\<close> between elements and \<^verbatim>\<open>: \<close> after
  a key.
\<close>

definition hex_digit :: "int \<Rightarrow> int" where
  "hex_digit d = cp (''0123456789abcdef'' ! nat d)"

definition hex4 :: "int \<Rightarrow> int list" where
  "hex4 n = [hex_digit (n div 4096 mod 16), hex_digit (n div 256 mod 16),
             hex_digit (n div 16 mod 16), hex_digit (n mod 16)]"

definition escape_char :: "int \<Rightarrow> int list" where
  "escape_char c =
     (if c = dquote then [backslash, dquote]
      else if c = backslash then [backslash, backslash]
      else if c = 0x08 then [backslash, cp CHR ''b'']
      else if c = 0x0C then [backslash, cp CHR ''f'']
      else if c = 0x0A then [backslash, cp CHR ''n'']
      else if c = 0x0D then [backslash, cp CHR ''r'']
      else if c = 0x09 then [backslash, cp CHR ''t'']
      else if 0x20 \<le> c \<and> c \<le> 0x7E then [c]
      else if c < 0x10000 then backslash # cp CHR ''u'' # hex4 c
      else (let v = c - 0x10000
            in backslash # cp CHR ''u'' # hex4 (0xD800 + v div 1024 mod 1024)
               @ backslash # cp CHR ''u'' # hex4 (0xDC00 + v mod 1024)))"

definition encode_string :: "int list \<Rightarrow> int list" where
  "encode_string s = dquote # concat (map escape_char s) @ [dquote]"

function dec_digits :: "int \<Rightarrow> int list" where
  "dec_digits n = (if n < 10 then [hex_digit n] else dec_digits (n div 10) @ [hex_digit (n mod 10)])"
  by pat_completeness auto
termination
  by (relation "measure nat") auto

declare dec_digits.simps [simp del]

definition repr_int :: "int \<Rightarrow> int list" where
  "repr_int i = (if i < 0 then cp CHR ''-'' # dec_digits (- i) else dec_digits i)"

definition newline_indent :: "nat \<Rightarrow> int list" where
  "newline_indent lvl = newline # replicate (4 * lvl) (cp CHR '' '')"

fun join :: "int list \<Rightarrow> int list list \<Rightarrow> int list" where
  "join sep [] = []"
| "join sep [x] = x"
| "join sep (x # y # ys) = x @ sep @ join sep (y # ys)"

fun encode :: "nat \<Rightarrow> int pyval \<Rightarrow> int list" where
  "encode lvl PNone = str ''null''"
| "encode lvl (PBool b) = (if b then str ''true'' else str ''false'')"
| "encode lvl (PInt i) = repr_int i"
| "encode lvl (PStr s) = encode_string s"
| "encode lvl (PList xs) =
     (if xs = [] then str ''[]''
      else str ''['' @ newline_indent (Suc lvl)
           @ join (str '','' @ newline_indent (Suc lvl)) (map (encode (Suc lvl)) xs)
           @ newline_indent lvl @ str '']'')"
| "encode lvl (PDict kvs) =
     (if kvs = [] then str ''{}''
      else str ''{'' @ newline_indent (Suc lvl)
           @ join (str '','' @ newline_indent (Suc lvl))
               (map (\<lambda>kv. encode_string (fst kv) @ str '': '' @ encode (Suc lvl) (snd kv)) kvs)
           @ newline_indent lvl @ str ''}'')"

definition json_dumps :: "int pyval \<Rightarrow> int list" where
  "json_dumps v = encode 0 v"

text \<open>
  Reading. The scanner follows \<^verbatim>\<open>json.decoder\<close> and \<^verbatim>\<open>json.scanner\<close>: white space around the
  tokens, strict strings (no raw control character), \<^verbatim>\<open>\uXXXX\<close> escapes of which a high
  surrogate directly followed by the escape of a low one makes a single character,
  integers without leading zeros, and a dict built pair by pair, so that a repeated key
  keeps its first place and its last value. A scan fails (\<^verbatim>\<open>JSONDecodeError\<close>), or yields a
  value and the rest of the text, or meets a number with a fraction or an exponent,
  \<^verbatim>\<open>NaN\<close> or \<^verbatim>\<open>Infinity\<close>: a floating-point number, which the value universe lacks. For such
  a text (\<open>Beyond\<close>) the theory leaves the answer of \<open>json_loads\<close> open. The \<open>nat\<close> argument
  bounds the number of nested scanner calls; the scanner starts with one more than the
  length of the text, and running out of it counts as \<open>Beyond\<close> as well.
\<close>

datatype 'a scan = Fail | Beyond | Ok 'a "int list"

definition is_ws :: "int \<Rightarrow> bool" where
  "is_ws c = (c = 0x20 \<or> c = 0x09 \<or> c = 0x0A \<or> c = 0x0D)"

fun skip_ws :: "int list \<Rightarrow> int list" where
  "skip_ws [] = []"
| "skip_ws (c # cs) = (if is_ws c then skip_ws cs else c # cs)"

definition digit_val :: "int \<Rightarrow> int option" where
  "digit_val c = (if 48 \<le> c \<and> c \<le> 57 then Some (c - 48) else None)"

definition hex_val :: "int \<Rightarrow> int option" where
  "hex_val c =
     (if 48 \<le> c \<and> c \<le> 57 then Some (c - 48)
      else if 97 \<le> c \<and> c \<le> 102 then Some (c - 87)
      else if 65 \<le> c \<and> c \<le> 70 then Some (c - 55)
      else None)"

definition unescape :: "int \<Rightarrow> int option" where
  "unescape e =
     (if e = dquote then Some dquote
      else if e = backslash then Some backslash
      else if e = cp CHR ''/'' then Some (cp CHR ''/'')
      else if e = cp CHR ''b'' then Some 0x08
      else if e = cp CHR ''f'' then Some 0x0C
      else if e = cp CHR ''n'' then Some 0x0A
      else if e = cp CHR ''r'' then Some 0x0D
      else if e = cp CHR ''t'' then Some 0x09
      else None)"

definition decode_uXXXX :: "int \<Rightarrow> int \<Rightarrow> int \<Rightarrow> int \<Rightarrow> int option" where
  "decode_uXXXX a b c d =
     (case (hex_val a, hex_val b, hex_val c, hex_val d) of
        (Some w, Some x, Some y, Some z) \<Rightarrow> Some (4096 * w + 256 * x + 16 * y + z)
      | _ \<Rightarrow> None)"

text \<open>
  The low surrogate that the text holds next as a \<^verbatim>\<open>\uXXXX\<close> escape of six characters:
  what a high surrogate joins with.
\<close>

definition low_escape :: "int list \<Rightarrow> int option" where
  "low_escape s =
     (case s of
        b # u # a1 # a2 # a3 # a4 # r \<Rightarrow>
          if b = backslash \<and> u = cp CHR ''u'' then
            (case decode_uXXXX a1 a2 a3 a4 of
               None \<Rightarrow> None
             | Some uni2 \<Rightarrow> if low_surrogate uni2 then Some uni2 else None)
          else None
      | _ \<Rightarrow> None)"

fun scanstring :: "int list \<Rightarrow> int list \<Rightarrow> int list scan" where
  "scanstring [] acc = Fail"
| "scanstring (c # cs) acc =
     (if c = dquote then Ok acc cs
      else if c = backslash then
        (case cs of
           [] \<Rightarrow> Fail
         | e # r \<Rightarrow>
           if e = cp CHR ''u'' then
             (case r of
                a1 # a2 # a3 # a4 # r' \<Rightarrow>
                  (case decode_uXXXX a1 a2 a3 a4 of
                     None \<Rightarrow> Fail
                   | Some uni \<Rightarrow>
                       if high_surrogate uni then
                         (case low_escape r' of
                            Some uni2 \<Rightarrow>
                              scanstring (drop 6 r')
                                (acc @ [0x10000 + (uni - 0xD800) * 1024 + (uni2 - 0xDC00)])
                          | None \<Rightarrow> scanstring r' (acc @ [uni]))
                       else scanstring r' (acc @ [uni]))
              | _ \<Rightarrow> Fail)
           else (case unescape e of
                   None \<Rightarrow> Fail
                 | Some ch \<Rightarrow> scanstring r (acc @ [ch])))
      else if c < 0x20 then Fail
      else scanstring cs (acc @ [c]))"

fun scan_digits :: "int list \<Rightarrow> int \<Rightarrow> int \<times> int list" where
  "scan_digits [] acc = (acc, [])"
| "scan_digits (c # cs) acc =
     (case digit_val c of
        None \<Rightarrow> (acc, c # cs)
      | Some d \<Rightarrow> scan_digits cs (10 * acc + d))"

definition starts_digit :: "int list \<Rightarrow> bool" where
  "starts_digit s = (case s of [] \<Rightarrow> False | c # cs \<Rightarrow> digit_val c \<noteq> None)"

definition float_tail :: "int list \<Rightarrow> bool" where
  "float_tail s =
     (case s of
        [] \<Rightarrow> False
      | c # cs \<Rightarrow>
          if c = cp CHR ''.'' then starts_digit cs
          else if c = cp CHR ''e'' \<or> c = cp CHR ''E'' then
            (case cs of
               [] \<Rightarrow> False
             | g # ds \<Rightarrow> if g = cp CHR ''+'' \<or> g = cp CHR ''-'' then starts_digit ds
                        else starts_digit cs)
          else False)"

definition scan_nat :: "int list \<Rightarrow> (int \<times> int list) option" where
  "scan_nat s =
     (case s of
        [] \<Rightarrow> None
      | c # cs \<Rightarrow>
          (case digit_val c of
             None \<Rightarrow> None
           | Some d \<Rightarrow> if d = 0 then Some (0, cs) else Some (scan_digits cs d)))"

definition scan_number :: "int list \<Rightarrow> int pyval scan" where
  "scan_number s =
     (case s of
        [] \<Rightarrow> Fail
      | c # cs \<Rightarrow>
          (case (if c = cp CHR ''-'' then scan_nat cs else scan_nat s) of
             None \<Rightarrow> Fail
           | Some (n, r) \<Rightarrow>
               if float_tail r then Beyond
               else Ok (PInt (if c = cp CHR ''-'' then - n else n)) r))"

definition scan_literal :: "int list \<Rightarrow> int pyval scan" where
  "scan_literal s =
     (if take 4 s = str ''null'' then Ok PNone (drop 4 s)
      else if take 4 s = str ''true'' then Ok (PBool True) (drop 4 s)
      else if take 5 s = str ''false'' then Ok (PBool False) (drop 5 s)
      else if take 3 s = str ''NaN'' then Beyond
      else if take 8 s = str ''Infinity'' then Beyond
      else if take 9 s = str ''-Infinity'' then Beyond
      else scan_number s)"

fun scan_once :: "nat \<Rightarrow> int list \<Rightarrow> int pyval scan"
  and scan_array :: "nat \<Rightarrow> int list \<Rightarrow> int pyval list \<Rightarrow> int pyval scan"
  and scan_object :: "nat \<Rightarrow> int list \<Rightarrow> (int list \<times> int pyval) list \<Rightarrow> int pyval scan"
  where
  "scan_once 0 s = Beyond"
| "scan_once (Suc n) [] = Fail"
| "scan_once (Suc n) (c # cs) =
     (if c = dquote then
        (case scanstring cs [] of
           Ok t r \<Rightarrow> Ok (PStr t) r
         | Beyond \<Rightarrow> Beyond
         | Fail \<Rightarrow> Fail)
      else if c = cp CHR ''{'' then
        (case skip_ws cs of
           [] \<Rightarrow> Fail
         | d # r \<Rightarrow> if d = cp CHR ''}'' then Ok (PDict []) r
                    else if d = dquote then scan_object n r []
                    else Fail)
      else if c = cp CHR ''['' then
        (case skip_ws cs of
           [] \<Rightarrow> Fail
         | d # r \<Rightarrow> if d = cp CHR '']'' then Ok (PList []) r
                    else scan_array n (d # r) [])
      else scan_literal (c # cs))"
| "scan_array 0 s acc = Beyond"
| "scan_array (Suc n) s acc =
     (case scan_once n s of
        Fail \<Rightarrow> Fail
      | Beyond \<Rightarrow> Beyond
      | Ok v r \<Rightarrow>
          (case skip_ws r of
             [] \<Rightarrow> Fail
           | d # r' \<Rightarrow> if d = cp CHR '']'' then Ok (PList (acc @ [v])) r'
                     else if d = cp CHR '','' then scan_array n (skip_ws r') (acc @ [v])
                     else Fail))"
| "scan_object 0 s acc = Beyond"
| "scan_object (Suc n) s acc =
     (case scanstring s [] of
        Fail \<Rightarrow> Fail
      | Beyond \<Rightarrow> Beyond
      | Ok k r \<Rightarrow>
          (case skip_ws r of
             [] \<Rightarrow> Fail
           | c # r1 \<Rightarrow>
               if c \<noteq> cp CHR '':'' then Fail
               else (case scan_once n (skip_ws r1) of
                       Fail \<Rightarrow> Fail
                     | Beyond \<Rightarrow> Beyond
                     | Ok v r2 \<Rightarrow>
                         (case skip_ws r2 of
                            [] \<Rightarrow> Fail
                          | d # r3 \<Rightarrow>
                              if d = cp CHR ''}'' then Ok (PDict (AList.update k v acc)) r3
                              else if d = cp CHR '','' then
                                (case skip_ws r3 of
                                   [] \<Rightarrow> Fail
                                 | q # r4 \<Rightarrow> if q = dquote
                                             then scan_object n r4 (AList.update k v acc)
                                             else Fail)
                              else Fail))))"

text \<open>
  \<^verbatim>\<open>json.loads\<close> rejects a text that starts with the byte order mark, scans one value after
  leading white space, and rejects anything but white space after it.
\<close>

definition scan_text :: "int list \<Rightarrow> int pyval scan" where
  "scan_text s =
     (if take 1 s = [0xFEFF] then Fail
      else (case scan_once (Suc (length s)) (skip_ws s) of
              Fail \<Rightarrow> Fail
            | Beyond \<Rightarrow> Beyond
            | Ok v r \<Rightarrow> if skip_ws r = [] then Ok v [] else Fail))"

definition json_loads :: "int list \<Rightarrow> exn + int pyval" where
  "json_loads s =
     (case scan_text s of
        Fail \<Rightarrow> Inl JSONDecodeError
      | Ok v r \<Rightarrow> Inr v
      | Beyond \<Rightarrow> undefined)"


text \<open>
  A string that survives the round trip through the text: its characters are code points,
  and no high surrogate is directly followed by a low one (the reader would join the two
  escapes into one character).
\<close>

fun joinable :: "int list \<Rightarrow> bool" where
  "joinable (a # b # cs) = (high_surrogate a \<and> low_surrogate b \<or> joinable (b # cs))"
| "joinable cs = False"

definition json_safe :: "int list \<Rightarrow> bool" where
  "json_safe s = (list_all is_char s \<and> \<not> joinable s)"

text \<open>
  Two readings of the writer's output, for the proofs: the number a run of decimal digits
  denotes, and the text of a non-empty dict from after the opening quote of its first key.
\<close>

definition digits_value :: "int \<Rightarrow> int list \<Rightarrow> int" where
  "digits_value acc ds = foldl (\<lambda>a c. 10 * a + the (digit_val c)) acc ds"

definition item_text :: "int list \<times> int pyval \<Rightarrow> int list" where
  "item_text kv = concat (map escape_char (fst kv)) @ [dquote] @ str '': '' @ encode 1 (snd kv)"

fun members_text :: "(int list \<times> int pyval) list \<Rightarrow> int list" where
  "members_text [] = []"
| "members_text [kv] = item_text kv @ newline_indent 0 @ str ''}''"
| "members_text (kv # kv' # kvs) =
     item_text kv @ str '','' @ newline_indent 1 @ [dquote] @ members_text (kv' # kvs)"

section \<open>Sequences of calls and the ledger invariant\<close>

text \<open>
  A caller's sequence of \<^verbatim>\<open>add_item\<close> and \<^verbatim>\<open>remove_item\<close> calls (without an audit list), cut
  short by the first exception that escapes.
\<close>

datatype 'c call = Add "'c pyval" "'c pyval" | Remove "'c pyval" "'c pyval"

fun run :: "'c call list \<Rightarrow> 'c state \<Rightarrow> (exn + unit) \<times> 'c state" where
  "run [] st = (Inr (), st)"
| "run (Add item qty # cs) st =
     (case add_item item qty None st of
        (Inl e, st1) \<Rightarrow> (Inl e, st1)
      | (Inr logs, st1) \<Rightarrow> run cs st1)"
| "run (Remove item qty # cs) st =
     (case remove_item item qty st of
        (Inl e, st1) \<Rightarrow> (Inl e, st1)
      | (Inr u, st1) \<Rightarrow> run cs st1)"

text \<open>The invariant of the data model: a dict, each of whose entries is an integer above 0.\<close>

definition positive_entry :: "'c list \<times> 'c pyval \<Rightarrow> bool" where
  "positive_entry kv = (case num_of (snd kv) of Some q \<Rightarrow> 0 < q | None \<Rightarrow> False)"

definition positive_ledger :: "'c pyval \<Rightarrow> bool" where
  "positive_ledger sd = (case sd of PDict kvs \<Rightarrow> list_all positive_entry kvs | _ \<Rightarrow> False)"

text \<open>An item of a dict ledger that counts as low stock under a threshold.\<close>

definition is_low :: "('c list \<times> 'c pyval) list \<Rightarrow> int \<Rightarrow> 'c list \<Rightarrow> bool" where
  "is_low kvs t k = (case map_of kvs k of
                       None \<Rightarrow> False
                     | Some v \<Rightarrow> (case num_of v of None \<Rightarrow> False | Some x \<Rightarrow> x < t))"



section \<open>Supporting facts\<close>

lemma is_int_num_of: "is_int v \<Longrightarrow> \<exists>x. num_of v = Some x"
  by (cases v) auto

lemma map_of_key_in_dom: "map_of kvs k = Some v \<Longrightarrow> k \<in> fst ` set kvs"
  by (metis map_of_SomeD fst_conv image_eqI)

lemma is_low_iff:
  "is_low kvs t k \<longleftrightarrow> (\<exists>v x. map_of kvs k = Some v \<and> num_of v = Some x \<and> x < t)"
  by (auto simp: is_low_def split: option.splits)

lemma low_loop_dict:
  assumes "\<forall>k\<in>set ks. \<exists>v. map_of kvs k = Some v \<and> is_int v"
  shows "low_loop (PDict kvs) t (map PStr ks) acc = Inr (acc @ map PStr (filter (is_low kvs t) ks))"
  using assms
proof (induction ks arbitrary: acc)
  case Nil
  then show ?case by simp
next
  case (Cons k ks)
  then obtain v where v: "map_of kvs k = Some v" "is_int v" by auto
  then obtain x where x: "num_of v = Some x" using is_int_num_of by blast
  have rest: "\<forall>k\<in>set ks. \<exists>v. map_of kvs k = Some v \<and> is_int v" using Cons.prems by simp
  show ?case
    using v x Cons.IH [OF rest]
    by (simp add: py_getitem_def py_lt_def is_low_def)
qed

lemma check_low_items_dict:
  assumes "stock_data st = PDict kvs" and "\<forall>v\<in>snd ` set kvs. is_int v"
  shows "check_low_items t st = Inr (map PStr (filter (is_low kvs t) (map fst kvs)))"
proof -
  have keys: "\<forall>k\<in>set (map fst kvs). \<exists>v. map_of kvs k = Some v \<and> is_int v"
  proof
    fix k assume "k \<in> set (map fst kvs)"
    then obtain v where v: "map_of kvs k = Some v"
      by (metis (full_types) map_of_eq_None_iff not_Some_eq set_map)
    then have "(k, v) \<in> set kvs" by (rule map_of_SomeD)
    then have "is_int v" using assms(2) by force
    with v show "\<exists>v. map_of kvs k = Some v \<and> is_int v" by blast
  qed
  have it: "py_iter (PDict kvs) = Inr (map PStr (map fst kvs))"
    by (simp add: py_iter_def comp_def)
  show ?thesis
    using low_loop_dict [OF keys, of t "[]"] assms(1) it
    by (simp add: check_low_items_def)
qed

subsection \<open>What keeps the invariant of the ledger\<close>

text \<open>
  \<^verbatim>\<open>remove_item\<close> keeps the invariant whatever its arguments; \<^verbatim>\<open>add_item\<close> keeps it when the
  sum it stores is above 0.
\<close>

lemma list_all_delete: "list_all P kvs \<Longrightarrow> list_all P (AList.delete k kvs)"
  by (induction kvs) auto

lemma list_all_update: "list_all P kvs \<Longrightarrow> P (k, v) \<Longrightarrow> list_all P (AList.update k v kvs)"
  by (induction kvs) auto

lemma remove_item_keeps_positive:
  assumes "positive_ledger (stock_data st)"
  shows "positive_ledger (stock_data (snd (remove_item item qty st)))"
proof -
  from assms obtain kvs where kvs: "stock_data st = PDict kvs" "list_all positive_entry kvs"
    by (auto simp: positive_ledger_def split: pyval.splits)
  show ?thesis
  proof (cases "py_isub_item (stock_data st) item qty")
    case (Inl e)
    then show ?thesis using assms
      by (simp add: remove_item_def except_KeyError_def logging_def)
  next
    case (Inr sd1)
    then obtain k cur c q where h: "item = PStr k" "map_of kvs k = Some cur"
        "num_of cur = Some c" "num_of qty = Some q"
        "sd1 = PDict (AList.update k (PInt (c - q)) kvs)"
      using kvs(1)
      by (auto simp: py_isub_item_def py_sub_def split: pyval.splits option.splits if_splits)
    show ?thesis
    proof (cases "c - q \<le> 0")
      case True
      then show ?thesis
        using Inr h kvs list_all_delete [OF kvs(2), of k]
        by (simp add: remove_item_def py_getitem_def py_le_def py_delitem_def logging_def
            AList.update_conv' AList.delete_update_same positive_ledger_def)
    next
      case False
      then have "positive_entry (k, PInt (c - q))" by (simp add: positive_entry_def)
      from list_all_update [OF kvs(2) this] False show ?thesis
        using Inr h kvs
        by (simp add: remove_item_def py_getitem_def py_le_def AList.update_conv'
            positive_ledger_def)
    qed
  qed
qed


lemma add_item_keeps_positive:
  assumes "positive_ledger (stock_data st)"
    and "get_qty item st = Inr cur" and "num_of cur = Some c" and "num_of qty = Some q"
    and "0 < c + q"
  shows "positive_ledger (stock_data (snd (add_item item qty logs st)))"
proof -
  from assms(1) obtain kvs where kvs: "stock_data st = PDict kvs" "list_all positive_entry kvs"
    by (auto simp: positive_ledger_def split: pyval.splits)
  have "positive_entry (str_value item, PInt (c + q))"
    using assms(5) by (simp add: positive_entry_def)
  from list_all_update [OF kvs(2) this] show ?thesis
    using assms kvs
    by (auto simp: add_item_def Let_def logging_def get_qty_def py_add_def py_setitem_def
        positive_ledger_def split: sum.splits)
qed

subsection \<open>The reader inverts the writer on a ledger\<close>

lemma cp_simps [simp]:
  "cp CHR ''u'' = 117" "cp CHR ''b'' = 98" "cp CHR ''f'' = 102" "cp CHR ''n'' = 110"
  "cp CHR ''r'' = 114" "cp CHR ''t'' = 116" "cp CHR ''/'' = 47" "cp CHR ''-'' = 45"
  "cp CHR ''+'' = 43" "cp CHR ''.'' = 46" "cp CHR ''e'' = 101" "cp CHR ''E'' = 69"
  "cp CHR ''{'' = 123" "cp CHR ''}'' = 125" "cp CHR ''['' = 91" "cp CHR '']'' = 93"
  "cp CHR '','' = 44" "cp CHR '':'' = 58" "cp CHR '' '' = 32"
  by (simp_all add: cp_def)

lemma hex_val_hex_digit: "0 \<le> d \<Longrightarrow> d < 16 \<Longrightarrow> hex_val (hex_digit d) = Some d"
proof -
  assume "0 \<le> d" "d < 16"
  then have "d = 0 \<or> d = 1 \<or> d = 2 \<or> d = 3 \<or> d = 4 \<or> d = 5 \<or> d = 6 \<or> d = 7 \<or> d = 8
      \<or> d = 9 \<or> d = 10 \<or> d = 11 \<or> d = 12 \<or> d = 13 \<or> d = 14 \<or> d = 15"
    by arith
  then show ?thesis
    by (elim disjE) (simp_all add: hex_val_def hex_digit_def cp_def)
qed

lemma div_16_16: "(n::int) div 256 = n div 16 div 16"
  using zdiv_zmult2_eq [of 16 n 16] by simp

lemma div_256_16: "(n::int) div 4096 = n div 16 div 16 div 16"
  using zdiv_zmult2_eq [of 16 n 256] by (simp add: div_16_16)

lemma hex4_value:
  assumes "0 \<le> n" and "n < 65536"
  shows "4096 * (n div 4096 mod 16) + 256 * (n div 256 mod 16) + 16 * (n div 16 mod 16) + n mod 16 = (n::int)"
proof -
  define q1 where "q1 = n div 16"
  define q2 where "q2 = q1 div 16"
  define q3 where "q3 = q2 div 16"
  define r1 where "r1 = n mod 16"
  define r2 where "r2 = q1 mod 16"
  define r3 where "r3 = q2 mod 16"
  have e1: "n = 16 * q1 + r1" by (simp add: q1_def r1_def)
  have e2: "q1 = 16 * q2 + r2" by (simp add: q2_def r2_def)
  have e3: "q2 = 16 * q3 + r3" by (simp add: q3_def r3_def)
  have p: "0 \<le> r1" "0 \<le> r2" "0 \<le> r3" by (simp_all add: r1_def r2_def r3_def)
  have "0 \<le> q1" using assms(1) by (simp add: q1_def pos_imp_zdiv_nonneg_iff)
  then have "0 \<le> q2" by (simp add: q2_def pos_imp_zdiv_nonneg_iff)
  then have q3a: "0 \<le> q3" by (simp add: q3_def pos_imp_zdiv_nonneg_iff)
  have q3b: "q3 < 16" using e1 e2 e3 p assms(2) by linarith
  have m: "q3 mod 16 = q3" using q3a q3b by simp
  have "4096 * q3 + 256 * r3 + 16 * r2 + r1 = n"
    using e1 e2 e3 by linarith
  then show ?thesis
    unfolding div_16_16 div_256_16 q1_def [symmetric] q2_def [symmetric] q3_def [symmetric]
      r1_def [symmetric] r2_def [symmetric] r3_def [symmetric] m .
qed

lemma mod_16_range: "0 \<le> (m::int) mod 16" "(m::int) mod 16 < 16"
  by simp_all

lemma hex4_digits:
  assumes "0 \<le> n" and "n < 65536"
  shows "decode_uXXXX (hex_digit (n div 4096 mod 16)) (hex_digit (n div 256 mod 16))
           (hex_digit (n div 16 mod 16)) (hex_digit (n mod 16)) = Some n"
proof -
  have a: "hex_val (hex_digit (n div 4096 mod 16)) = Some (n div 4096 mod 16)"
    by (rule hex_val_hex_digit) (rule mod_16_range)+
  have b: "hex_val (hex_digit (n div 256 mod 16)) = Some (n div 256 mod 16)"
    by (rule hex_val_hex_digit) (rule mod_16_range)+
  have c: "hex_val (hex_digit (n div 16 mod 16)) = Some (n div 16 mod 16)"
    by (rule hex_val_hex_digit) (rule mod_16_range)+
  have d: "hex_val (hex_digit (n mod 16)) = Some (n mod 16)"
    by (rule hex_val_hex_digit) (rule mod_16_range)+
  show ?thesis
    unfolding decode_uXXXX_def a b c d prod.case option.case hex4_value [OF assms]
    by (rule refl)
qed

lemma surrogate_value:
  assumes "65536 \<le> c" and "c < 1114112"
  shows "65536 + (55296 + (c - 65536) div 1024 mod 1024 - 55296) * 1024
           + (56320 + (c - 65536) mod 1024 - 56320) = (c::int)"
proof -
  define v where "v = c - 65536"
  define a where "a = v div 1024"
  define b where "b = v mod 1024"
  have v: "0 \<le> v" "v < 1048576" using assms by (simp_all add: v_def)
  have e: "v = 1024 * a + b" by (simp add: a_def b_def)
  have p: "0 \<le> b" by (simp add: b_def)
  have a0: "0 \<le> a" using v(1) by (simp add: a_def pos_imp_zdiv_nonneg_iff)
  have a1: "a < 1024" using e p v(2) by linarith
  have m: "a mod 1024 = a" using a0 a1 by simp
  have "65536 + (55296 + a - 55296) * 1024 + (56320 + b - 56320) = c"
    using e by (simp add: v_def)
  then show ?thesis
    unfolding v_def [symmetric] a_def [symmetric] b_def [symmetric] m .
qed

lemma hex4_scan:
  assumes "0 \<le> n" and "n < 65536"
  shows "\<exists>a b c d. hex4 n = [a, b, c, d] \<and> decode_uXXXX a b c d = Some n"
  using hex4_digits [OF assms] by (simp add: hex4_def)

lemma low_escape_not_backslash: "x \<noteq> backslash \<Longrightarrow> low_escape (x # tail) = None"
  by (simp add: low_escape_def split: list.splits)

lemma low_escape_not_u: "u \<noteq> 117 \<Longrightarrow> low_escape (x # u # tail) = None"
  by (simp add: low_escape_def split: list.splits)

lemma low_escape_hex:
  "decode_uXXXX a b c d = Some n \<Longrightarrow>
   low_escape (backslash # 117 # a # b # c # d # tail) = (if low_surrogate n then Some n else None)"
  by (simp add: low_escape_def)

lemma backslash_dquote [simp]: "backslash \<noteq> dquote" "dquote \<noteq> backslash"
  by (simp_all add: backslash_def dquote_def)

lemma scanstring_short:
  "scanstring (backslash # e # rest) acc =
     (if e = 117 then
        (case rest of
           a1 # a2 # a3 # a4 # r' \<Rightarrow>
             (case decode_uXXXX a1 a2 a3 a4 of
                None \<Rightarrow> Fail
              | Some uni \<Rightarrow>
                  if high_surrogate uni then
                    (case low_escape r' of
                       Some uni2 \<Rightarrow>
                         scanstring (drop 6 r')
                           (acc @ [0x10000 + (uni - 0xD800) * 1024 + (uni2 - 0xDC00)])
                     | None \<Rightarrow> scanstring r' (acc @ [uni]))
                  else scanstring r' (acc @ [uni]))
         | _ \<Rightarrow> Fail)
      else (case unescape e of None \<Rightarrow> Fail | Some ch \<Rightarrow> scanstring rest (acc @ [ch])))"
  by (simp add: backslash_def dquote_def)

lemma scanstring_hex:
  assumes "decode_uXXXX a b c d = Some n" and "\<not> high_surrogate n \<or> low_escape r = None"
  shows "scanstring (backslash # 117 # a # b # c # d # r) acc = scanstring r (acc @ [n])"
  using assms by (auto simp: scanstring_short)

lemma scanstring_pair:
  assumes "decode_uXXXX a b c d = Some n" and "high_surrogate n"
    and "decode_uXXXX a' b' c' d' = Some m" and "low_surrogate m"
  shows "scanstring (backslash # 117 # a # b # c # d # backslash # 117 # a' # b' # c' # d' # r) acc =
         scanstring r (acc @ [0x10000 + (n - 0xD800) * 1024 + (m - 0xDC00)])"
  using assms by (simp add: scanstring_short low_escape_hex)

declare scanstring.simps [simp del]

lemma scanstring_quote: "scanstring (dquote # rest) acc = Ok acc rest"
  by (simp add: scanstring.simps)

lemma scanstring_plain:
  "c \<noteq> dquote \<Longrightarrow> c \<noteq> backslash \<Longrightarrow> \<not> c < 32 \<Longrightarrow>
   scanstring (c # rest) acc = scanstring rest (acc @ [c])"
  by (simp add: scanstring.simps)

text \<open>A character that is written as itself or as a short escape.\<close>

lemma escape_char_cases:
  assumes "0 \<le> c"
  shows "(c = 34 \<or> c = 92 \<or> c = 8 \<or> c = 12 \<or> c = 10 \<or> c = 13 \<or> c = 9)
       \<or> (32 \<le> c \<and> c \<le> 126 \<and> c \<noteq> 34 \<and> c \<noteq> 92 \<and> escape_char c = [c])
       \<or> (c < 65536 \<and> (c < 32 \<or> 126 < c) \<and> escape_char c = backslash # 117 # hex4 c)
       \<or> (65536 \<le> c \<and> escape_char c =
             backslash # 117 # hex4 (55296 + (c - 65536) div 1024 mod 1024)
             @ backslash # 117 # hex4 (56320 + (c - 65536) mod 1024))"
  using assms
  by (auto simp: escape_char_def dquote_def backslash_def Let_def)


lemma scanstring_escape_special:
  "c = 34 \<or> c = 92 \<or> c = 8 \<or> c = 12 \<or> c = 10 \<or> c = 13 \<or> c = 9 \<Longrightarrow>
   scanstring (escape_char c @ rest) acc = scanstring rest (acc @ [c])"
  by (elim disjE)
    (simp_all add: escape_char_def scanstring_short [unfolded backslash_def] unescape_def
      dquote_def backslash_def)

lemma scanstring_escape_bmp:
  assumes "0 \<le> c" and "c < 65536" and "\<not> high_surrogate c \<or> low_escape rest = None"
  shows "scanstring (escape_char c @ rest) acc = scanstring rest (acc @ [c])"
proof -
  consider (special) "c = 34 \<or> c = 92 \<or> c = 8 \<or> c = 12 \<or> c = 10 \<or> c = 13 \<or> c = 9"
    | (plain) "32 \<le> c" "c \<noteq> 34" "c \<noteq> 92" "escape_char c = [c]"
    | (hex) "escape_char c = backslash # 117 # hex4 c"
    using escape_char_cases [OF assms(1)] assms(2) by auto
  then show ?thesis
  proof cases
    case special
    then show ?thesis by (rule scanstring_escape_special)
  next
    case plain
    then show ?thesis
      by (simp add: scanstring_plain dquote_def backslash_def)
  next
    case hex
    obtain a b c' d where h: "hex4 c = [a, b, c', d]" "decode_uXXXX a b c' d = Some c"
      using hex4_scan [OF assms(1,2)] by blast
    show ?thesis
      using scanstring_hex [OF h(2) assms(3), of acc] by (simp add: hex h(1))
  qed
qed

lemma surrogates_of:
  assumes "65536 \<le> c" and "c < 1114112"
  shows "high_surrogate (55296 + (c - 65536) div 1024 mod 1024)"
    and "low_surrogate (56320 + (c - 65536) mod 1024)"
proof -
  define a where "a = (c - 65536) div 1024 mod 1024"
  define b where "b = (c - 65536) mod 1024"
  have "0 \<le> a" "a < 1024" "0 \<le> b" "b < 1024" by (simp_all add: a_def b_def)
  then have "high_surrogate (55296 + a)" "low_surrogate (56320 + b)"
    by (simp_all add: high_surrogate_def low_surrogate_def)
  then show "high_surrogate (55296 + (c - 65536) div 1024 mod 1024)"
    and "low_surrogate (56320 + (c - 65536) mod 1024)"
    by (simp_all only: a_def b_def)
qed

lemma surrogate_bounds:
  "high_surrogate n \<Longrightarrow> 0 \<le> n \<and> n < 65536"
  "low_surrogate n \<Longrightarrow> 0 \<le> n \<and> n < 65536"
  by (simp_all add: high_surrogate_def low_surrogate_def)

lemma scanstring_escape_astral:
  assumes "65536 \<le> c" and "c < 1114112"
  shows "scanstring (escape_char c @ rest) acc = scanstring rest (acc @ [c])"
proof -
  define s1 where "s1 = 55296 + (c - 65536) div 1024 mod 1024"
  define s2 where "s2 = 56320 + (c - 65536) mod 1024"
  have hi: "high_surrogate s1" and lo: "low_surrogate s2"
    using surrogates_of [OF assms] by (simp_all only: s1_def s2_def)
  have esc: "escape_char c = backslash # 117 # hex4 s1 @ backslash # 117 # hex4 s2"
    using assms(1)
    by (simp add: escape_char_def dquote_def backslash_def Let_def s1_def s2_def)
  obtain a b c' d where h1: "hex4 s1 = [a, b, c', d]" "decode_uXXXX a b c' d = Some s1"
    using hex4_scan [of s1] surrogate_bounds(1) [OF hi] by blast
  obtain a' b' c'' d' where h2: "hex4 s2 = [a', b', c'', d']" "decode_uXXXX a' b' c'' d' = Some s2"
    using hex4_scan [of s2] surrogate_bounds(2) [OF lo] by blast
  have val: "65536 + (s1 - 55296) * 1024 + (s2 - 56320) = c"
    using surrogate_value [OF assms] by (simp only: s1_def s2_def)
  show ?thesis
    using scanstring_pair [OF h1(2) hi h2(2) lo, of rest acc] val
    by (simp add: esc h1(1) h2(1))
qed

lemma low_escape_escape_char:
  assumes "0 \<le> c" and "c < 1114112" and "\<not> low_surrogate c"
  shows "low_escape (escape_char c @ tail) = None"
proof -
  consider (special) "c = 34 \<or> c = 92 \<or> c = 8 \<or> c = 12 \<or> c = 10 \<or> c = 13 \<or> c = 9"
    | (plain) "c \<noteq> 92" "escape_char c = [c]"
    | (hex) "c < 65536" "escape_char c = backslash # 117 # hex4 c"
    | (astral) "65536 \<le> c"
    using escape_char_cases [OF assms(1)] by auto
  then show ?thesis
  proof cases
    case special
    then show ?thesis
      by (elim disjE)
        (simp_all add: escape_char_def dquote_def backslash_def low_escape_not_u)
  next
    case plain
    then show ?thesis by (simp add: low_escape_not_backslash backslash_def)
  next
    case hex
    obtain a b c' d where h: "hex4 c = [a, b, c', d]" "decode_uXXXX a b c' d = Some c"
      using hex4_scan [OF assms(1) hex(1)] by blast
    show ?thesis
      using low_escape_hex [OF h(2)] assms(3) by (simp add: hex(2) h(1))
  next
    case astral
    define s1 where "s1 = 55296 + (c - 65536) div 1024 mod 1024"
    define s2 where "s2 = 56320 + (c - 65536) mod 1024"
    have hi: "high_surrogate s1"
      using surrogates_of(1) [OF astral assms(2)] by (simp only: s1_def)
    then have nl: "\<not> low_surrogate s1"
      by (simp add: high_surrogate_def low_surrogate_def)
    have esc: "escape_char c = backslash # 117 # hex4 s1 @ backslash # 117 # hex4 s2"
      using astral
      by (simp add: escape_char_def dquote_def backslash_def Let_def s1_def s2_def)
    obtain a b c' d where h1: "hex4 s1 = [a, b, c', d]" "decode_uXXXX a b c' d = Some s1"
      using hex4_scan [of s1] surrogate_bounds(1) [OF hi] by blast
    show ?thesis
      using low_escape_hex [OF h1(2)] nl by (simp add: esc h1(1))
  qed
qed

lemma joinable_Cons: "joinable s \<Longrightarrow> joinable (c # s)"
  by (cases s) simp_all

lemma scanstring_roundtrip:
  assumes "list_all is_char s" and "\<not> joinable s"
  shows "scanstring (concat (map escape_char s) @ dquote # rest) acc = Ok (acc @ s) rest"
  using assms
proof (induction s arbitrary: acc)
  case Nil
  show ?case by (simp add: scanstring_quote)
next
  case (Cons c s)
  let ?tail = "concat (map escape_char s) @ dquote # rest"
  have c: "0 \<le> c" "c < 1114112" using Cons.prems(1) by (simp_all add: is_char_def)
  have s: "list_all is_char s" using Cons.prems(1) by simp
  have nj: "\<not> joinable s" using Cons.prems(2) joinable_Cons by blast
  have ih: "scanstring ?tail (acc @ [c]) = Ok (acc @ c # s) rest"
    using Cons.IH [OF s nj, of "acc @ [c]"] by simp
  have step: "scanstring (escape_char c @ ?tail) acc = scanstring ?tail (acc @ [c])"
  proof (cases "c < 65536")
    case False
    then show ?thesis using scanstring_escape_astral [of c ?tail acc] c(2) by simp
  next
    case True
    have "\<not> high_surrogate c \<or> low_escape ?tail = None"
    proof (cases s)
      case Nil
      then show ?thesis by (simp add: low_escape_not_backslash)
    next
      case next_char: (Cons c' s')
      show ?thesis
      proof (cases "high_surrogate c")
        case False
        then show ?thesis by simp
      next
        case True
        then have "\<not> low_surrogate c'" using Cons.prems(2) next_char by simp
        moreover have "0 \<le> c'" "c' < 1114112" using s next_char by (simp_all add: is_char_def)
        ultimately show ?thesis
          using low_escape_escape_char [of c' "concat (map escape_char s') @ dquote # rest"]
            next_char
          by simp
      qed
    qed
    then show ?thesis by (rule scanstring_escape_bmp [OF c(1) True])
  qed
  show ?case using step ih by simp
qed

lemma digit_val_hex_digit: "0 \<le> d \<Longrightarrow> d < 10 \<Longrightarrow> digit_val (hex_digit d) = Some d"
proof -
  assume "0 \<le> d" "d < 10"
  then have "d = 0 \<or> d = 1 \<or> d = 2 \<or> d = 3 \<or> d = 4 \<or> d = 5 \<or> d = 6 \<or> d = 7 \<or> d = 8 \<or> d = 9"
    by arith
  then show ?thesis
    by (elim disjE) (simp_all add: digit_val_def hex_digit_def cp_def)
qed

lemma scan_digits_append:
  "\<forall>c\<in>set ds. digit_val c \<noteq> None \<Longrightarrow> \<not> starts_digit rest \<Longrightarrow>
   scan_digits (ds @ rest) acc = (digits_value acc ds, rest)"
proof (induction ds arbitrary: acc)
  case Nil
  then show ?case
    by (cases rest) (auto simp: digits_value_def starts_digit_def)
next
  case (Cons c ds)
  then show ?case by (auto simp: digits_value_def)
qed

lemma mod_10_digit: "digit_val (hex_digit ((n::int) mod 10)) = Some (n mod 10)"
  by (rule digit_val_hex_digit) simp_all

lemma dec_digits_all_digits: "0 \<le> n \<Longrightarrow> \<forall>c\<in>set (dec_digits n). digit_val c \<noteq> None"
proof (induction n rule: dec_digits.induct)
  case (1 n)
  show ?case
  proof (cases "n < 10")
    case True
    then show ?thesis
      using "1.prems" by (simp add: dec_digits.simps [of n] digit_val_hex_digit)
  next
    case False
    then have "0 \<le> n div 10" by simp
    with False 1 show ?thesis
      by (simp add: dec_digits.simps [of n] mod_10_digit)
  qed
qed

lemma dec_digits_value: "0 \<le> n \<Longrightarrow> digits_value 0 (dec_digits n) = n"
proof (induction n rule: dec_digits.induct)
  case (1 n)
  show ?case
  proof (cases "n < 10")
    case True
    then show ?thesis
      using "1.prems"
      by (simp add: dec_digits.simps [of n] digits_value_def digit_val_hex_digit)
  next
    case False
    then have "0 \<le> n div 10" by simp
    with False 1 have "digits_value 0 (dec_digits (n div 10)) = n div 10" by simp
    with False show ?thesis
      by (simp add: dec_digits.simps [of n] digits_value_def mod_10_digit)
  qed
qed

lemma dec_digits_head:
  "0 \<le> n \<Longrightarrow> \<exists>c cs d. dec_digits n = c # cs \<and> digit_val c = Some d \<and> (0 < n \<longrightarrow> 0 < d)"
proof (induction n rule: dec_digits.induct)
  case (1 n)
  show ?case
  proof (cases "n < 10")
    case True
    then show ?thesis
      using "1.prems" by (simp add: dec_digits.simps [of n] digit_val_hex_digit)
  next
    case False
    then have "0 < n div 10" by simp
    with False 1 obtain c cs d where
      "dec_digits (n div 10) = c # cs" "digit_val c = Some d" "0 < d" by force
    with False show ?thesis by (simp add: dec_digits.simps [of n])
  qed
qed

lemma scan_nat_dec_digits:
  assumes "\<not> starts_digit rest" and "0 \<le> n"
  shows "scan_nat (dec_digits n @ rest) = Some (n, rest)"
proof (cases "n = 0")
  case True
  then show ?thesis
    by (simp add: dec_digits.simps [of 0] scan_nat_def hex_digit_def digit_val_def cp_def)
next
  case False
  then obtain c cs d where h: "dec_digits n = c # cs" "digit_val c = Some d" "0 < d"
    using dec_digits_head [OF assms(2)] assms(2) by auto
  have all: "\<forall>c\<in>set cs. digit_val c \<noteq> None"
    using dec_digits_all_digits [OF assms(2)] h(1) by simp
  have "digits_value 0 (c # cs) = n" using dec_digits_value [OF assms(2)] h(1) by simp
  then have v: "digits_value d cs = n" using h(2) by (simp add: digits_value_def)
  show ?thesis
    using h v scan_digits_append [OF all assms(1), of d]
    by (simp add: scan_nat_def)
qed

lemma scan_number_repr_int:
  assumes "\<not> starts_digit rest" and "\<not> float_tail rest"
  shows "scan_number (repr_int i @ rest) = Ok (PInt i) rest"
proof (cases "i < 0")
  case True
  then show ?thesis
    using scan_nat_dec_digits [OF assms(1), of "- i"] assms(2)
    by (simp add: scan_number_def repr_int_def)
next
  case False
  then have nn: "0 \<le> i" by simp
  obtain c cs d where h: "dec_digits i = c # cs" "digit_val c = Some d"
    using dec_digits_head [OF nn] by auto
  have "c \<noteq> 45" using h(2) by (auto simp: digit_val_def split: if_splits)
  then show ?thesis
    using False h(1) scan_nat_dec_digits [OF assms(1) nn] assms(2)
    by (simp add: scan_number_def repr_int_def)
qed

lemma repr_int_head:
  "\<exists>c cs. repr_int i = c # cs \<and> (c = 45 \<or> digit_val c \<noteq> None)"
proof (cases "i < 0")
  case True
  then show ?thesis by (simp add: repr_int_def)
next
  case False
  then have "0 \<le> i" by simp
  from dec_digits_head [OF this] False show ?thesis by (auto simp: repr_int_def)
qed

lemma str_simps [simp]: "str [] = []" "str (c # cs) = cp c # str cs"
  by (simp_all add: str_def)

lemma scan_once_repr_int:
  assumes "\<not> starts_digit rest" and "\<not> float_tail rest"
  shows "scan_once (Suc n) (repr_int i @ rest) = Ok (PInt i) rest"
proof -
  obtain c cs where h: "repr_int i = c # cs" "c = 45 \<or> digit_val c \<noteq> None"
    using repr_int_head by blast
  from h(2) have ne: "c \<noteq> dquote" "c \<noteq> 123" "c \<noteq> 91"
      "c \<noteq> 110" "c \<noteq> 116" "c \<noteq> 102" "c \<noteq> 78" "c \<noteq> 73"
    by (auto simp: digit_val_def dquote_def split: if_splits)
  have inf: "take 9 (c # cs @ rest) \<noteq> str ''-Infinity''"
  proof (cases "c = 45")
    case False
    then show ?thesis by (simp add: cp_def)
  next
    case True
    then have "i < 0" using h(1) dec_digits_head [of i]
      by (cases "i < 0") (auto simp: repr_int_def digit_val_def split: if_splits)
    then obtain c' cs' d where "dec_digits (- i) = c' # cs'" "digit_val c' = Some d"
      using dec_digits_head [of "- i"] by auto
    then have "cs @ rest = c' # cs' @ rest" "c' \<noteq> 73"
      using h(1) \<open>i < 0\<close> by (auto simp: repr_int_def digit_val_def split: if_splits)
    then show ?thesis by (simp add: cp_def)
  qed
  have "scan_literal (c # cs @ rest) = scan_number (c # cs @ rest)"
    using ne inf by (auto simp: scan_literal_def cp_def)
  then show ?thesis
    using ne h(1) scan_number_repr_int [OF assms, of i] by simp
qed

lemma join_members:
  "kvs \<noteq> [] \<Longrightarrow>
   join (str '','' @ newline_indent 1)
     (map (\<lambda>kv. encode_string (fst kv) @ str '': '' @ encode 1 (snd kv)) kvs)
   @ newline_indent 0 @ str ''}'' = dquote # members_text kvs"
  by (induction kvs rule: members_text.induct) (simp_all add: item_text_def encode_string_def)

lemma encode_dict:
  "kvs \<noteq> [] \<Longrightarrow>
   json_dumps (PDict kvs) = str ''{'' @ newline_indent 1 @ dquote # members_text kvs"
  using join_members [of kvs] by (simp add: json_dumps_def)

lemma skip_ws_spaces: "\<not> is_ws c \<Longrightarrow> skip_ws (replicate n 32 @ c # r) = c # r"
  by (induction n) (simp_all add: is_ws_def)

lemma skip_ws_newline_indent:
  "\<not> is_ws c \<Longrightarrow> skip_ws (newline_indent l @ c # r) = c # r"
  by (simp add: newline_indent_def newline_def is_ws_def skip_ws_spaces)

lemma skip_ws_repr_int: "skip_ws (repr_int i @ r) = repr_int i @ r"
proof -
  obtain c cs where h: "repr_int i = c # cs" "c = 45 \<or> digit_val c \<noteq> None"
    using repr_int_head by blast
  then have "\<not> is_ws c" by (auto simp: is_ws_def digit_val_def split: if_splits)
  with h(1) show ?thesis by simp
qed

lemma after_value_1: "\<not> starts_digit (newline_indent l @ r)" "\<not> float_tail (newline_indent l @ r)"
  by (simp_all add: newline_indent_def newline_def starts_digit_def float_tail_def digit_val_def)

lemma after_value_2: "\<not> starts_digit (44 # r)" "\<not> float_tail (44 # r)"
  by (simp_all add: starts_digit_def float_tail_def digit_val_def)

lemma scan_object_members:
  "kvs \<noteq> [] \<Longrightarrow> \<forall>kv\<in>set kvs. json_safe (fst kv) \<and> (\<exists>i. snd kv = PInt i) \<Longrightarrow>
   length kvs < fuel \<Longrightarrow>
   scan_object fuel (members_text kvs @ rest) acc =
     Ok (PDict (foldl (\<lambda>a kv. AList.update (fst kv) (snd kv) a) acc kvs)) rest"
proof (induction kvs arbitrary: fuel acc rule: members_text.induct)
  case 1
  then show ?case by simp
next
  case (2 kv)
  obtain k i where kv: "kv = (k, PInt i)" using 2(2) by (cases kv) auto
  have k: "list_all is_char k" "\<not> joinable k" using 2(2) kv by (simp_all add: json_safe_def)
  obtain n where n: "fuel = Suc (Suc n)" using 2(3)
    by (metis One_nat_def length_Cons less_imp_Suc_add list.size(3) add_Suc)
  have brace: "\<not> is_ws 125" by (simp add: is_ws_def)
  show ?case
    using scanstring_roundtrip [OF k, of "str '': '' @ repr_int i @ newline_indent 0 @ str ''}'' @ rest" "[]"]
      scan_once_repr_int [OF after_value_1, of n i 0 "str ''}'' @ rest"]
      skip_ws_newline_indent [OF brace, of 0 rest]
    by (simp add: kv n item_text_def is_ws_def skip_ws_repr_int)
next
  case (3 kv kv' kvs)
  obtain k i where kv: "kv = (k, PInt i)" using 3(3) by (cases kv) auto
  have k: "list_all is_char k" "\<not> joinable k" using 3(3) kv by (simp_all add: json_safe_def)
  obtain n where n: "fuel = Suc (Suc n)" using 3(4)
    by (metis length_Cons less_imp_Suc_add add_Suc)
  have len: "length (kv' # kvs) < Suc n" using 3(4) n by simp
  have vals: "\<forall>kv\<in>set (kv' # kvs). json_safe (fst kv) \<and> (\<exists>i. snd kv = PInt i)"
    using 3(3) by simp
  have q: "\<not> is_ws dquote" by (simp add: is_ws_def dquote_def)
  let ?tail = "members_text (kv' # kvs) @ rest"
  have ih: "scan_object (Suc n) ?tail (AList.update k (PInt i) acc) =
      Ok (PDict (foldl (\<lambda>a kv. AList.update (fst kv) (snd kv) a)
                   (AList.update k (PInt i) acc) (kv' # kvs))) rest"
    using 3(1) [OF _ vals len] by simp
  show ?case
    using scanstring_roundtrip [OF k, of "str '': '' @ repr_int i @ str '','' @ newline_indent 1 @ dquote # ?tail" "[]"]
      scan_once_repr_int [OF after_value_2, of n i "newline_indent 1 @ dquote # ?tail"]
      skip_ws_newline_indent [OF q, of 1 ?tail] ih
    by (simp add: kv n item_text_def is_ws_def skip_ws_repr_int)
qed

lemma foldl_update_distinct:
  "distinct (map fst (acc @ kvs)) \<Longrightarrow>
   foldl (\<lambda>a kv. AList.update (fst kv) (snd kv) a) acc kvs = acc @ kvs"
proof (induction kvs arbitrary: acc)
  case Nil
  then show ?case by simp
next
  case (Cons kv kvs)
  have fresh: "fst kv \<notin> fst ` set acc" using Cons.prems by auto
  have upd: "AList.update (fst kv) (snd kv) acc = acc @ [kv]"
    using fresh by (induction acc) auto
  have "distinct (map fst ((acc @ [kv]) @ kvs))" using Cons.prems by simp
  from Cons.IH [OF this] upd show ?case by simp
qed

lemma length_members_text: "length kvs \<le> length (members_text kvs)"
  by (induction kvs rule: members_text.induct) (simp_all add: newline_indent_def)

lemma scan_text_ledger:
  assumes "distinct (map fst kvs)"
    and "\<forall>kv\<in>set kvs. json_safe (fst kv) \<and> (\<exists>i. snd kv = PInt i)"
  shows "scan_text (json_dumps (PDict kvs)) = Ok (PDict kvs) []"
proof (cases "kvs = []")
  case True
  then show ?thesis
    by (simp add: scan_text_def json_dumps_def is_ws_def dquote_def)
next
  case False
  let ?s = "str ''{'' @ newline_indent 1 @ dquote # members_text kvs"
  have q: "\<not> is_ws dquote" by (simp add: is_ws_def dquote_def)
  have len: "length kvs < length ?s" using length_members_text [of kvs] by simp
  have obj: "scan_object (length ?s) (members_text kvs @ []) [] = Ok (PDict kvs) []"
    using scan_object_members [OF False assms(2) len, of "[]" "[]"]
      foldl_update_distinct [of "[]" kvs] assms(1) by simp
  have "scan_once (Suc (length ?s)) (skip_ws ?s) = Ok (PDict kvs) []"
    using obj skip_ws_newline_indent [OF q, of 1 "members_text kvs"]
    by (simp add: is_ws_def dquote_def)
  then show ?thesis
    using encode_dict [OF False] by (simp add: scan_text_def)
qed

lemma json_roundtrip_ledger:
  assumes "distinct (map fst kvs)"
    and "\<forall>kv\<in>set kvs. json_safe (fst kv) \<and> (\<exists>i. snd kv = PInt i)"
  shows "json_loads (json_dumps (PDict kvs)) = Inr (PDict kvs)"
  using scan_text_ledger [OF assms] by (simp add: json_loads_def)

section \<open>Properties of the operations\<close>

text \<open>
  C1 (every key that survives a sequence of add and remove calls has a quantity above 0).
  The code does not keep this: \<^verbatim>\<open>add_item\<close> stores whatever sum it computes and, unlike
  \<^verbatim>\<open>remove_item\<close>, never deletes. The call \<^verbatim>\<open>add_item("banana", -2)\<close> on the empty ledger,
  which \<^verbatim>\<open>main\<close> itself makes, returns normally and leaves the entry \<^verbatim>\<open>banana\<close> at \<open>-2\<close>.
\<close>

theorem add_item_keeps_nonpositive:
  "run [Add (PStr ''banana'') (PInt (- 2))] initial_state =
     (Inr (), initial_state\<lparr>stock_data := PDict [(''banana'', PInt (- 2))]\<rparr>)"
  by (simp add: add_item_def py_get_def py_add_def py_setitem_def initial_state_def)

theorem add_item_keeps_nonpositive_witness:
  "\<not> positive_ledger
       (stock_data (snd (run [Add (PStr ''banana'') (PInt (- 2))] initial_state)))"
  using add_item_keeps_nonpositive
  by (simp add: positive_ledger_def positive_entry_def)

text \<open>
  C2 (no operation lets an exception reach the caller, whatever the arguments and the
  files). The code does not keep this either: \<^verbatim>\<open>remove_item\<close> checks no types and catches
  \<^verbatim>\<open>KeyError\<close> only, so \<^verbatim>\<open>remove_item("apple", "three")\<close> on a ledger that holds \<^verbatim>\<open>apple\<close>
  raises \<^verbatim>\<open>TypeError\<close>; \<^verbatim>\<open>load_data\<close> catches \<^verbatim>\<open>FileNotFoundError\<close> and
  \<^verbatim>\<open>JSONDecodeError\<close> only, so a file that may not be opened raises \<^verbatim>\<open>PermissionError\<close>.
\<close>

theorem remove_item_raises_TypeError:
  "run [Add (PStr ''apple'') (PInt 10), Remove (PStr ''apple'') (PStr ''three'')] initial_state =
     (Inl TypeError, initial_state\<lparr>stock_data := PDict [(''apple'', PInt 10)]\<rparr>)
   \<and> load_data loads default_file (initial_state\<lparr>files := (\<lambda>p. Locked)\<rparr>) =
     (Inl PermissionError, initial_state\<lparr>files := (\<lambda>p. Locked)\<rparr>)"
  by (simp add: add_item_def remove_item_def py_get_def py_add_def py_setitem_def
      py_isub_item_def py_sub_def except_KeyError_def initial_state_def load_data_def
      read_text_def)

theorem remove_item_raises_TypeError_witness:
  "fst (run [Add (PStr ''apple'') (PInt 10), Remove (PStr ''apple'') (PStr ''three'')]
          initial_state) = Inl TypeError
   \<and> fst (load_data json_loads default_file (initial_state\<lparr>files := (\<lambda>p. Locked)\<rparr>)) =
       Inl PermissionError"
  using remove_item_raises_TypeError [of json_loads] by simp

text \<open>
  C3 (add sets the entry to its previous quantity, 0 if absent, plus qty, as
  \<^verbatim>\<open>get_qty\<close> observes it). For a non-empty string \<open>k\<close> whose quantity \<^verbatim>\<open>get_qty\<close> reports as
  the integer \<open>c\<close>, \<^verbatim>\<open>add_item(k, q)\<close> returns normally, appends one entry to the audit
  list, updates only the entry of \<open>k\<close>, and \<^verbatim>\<open>get_qty\<close> then reports \<open>c + q\<close>.
\<close>

theorem add_item_adds:
  assumes "get_qty (PStr k) st = Inr (PInt c)" and "k \<noteq> []"
  shows "(\<exists>kvs. stock_data st = PDict kvs \<and>
            add_item (PStr k) (PInt q) logs st =
              (Inr ((case logs of None \<Rightarrow> [] | Some l \<Rightarrow> l) @ [Added (PInt q) (PStr k)]),
               st\<lparr>stock_data := PDict (AList.update k (PInt (c + q)) kvs)\<rparr>))
         \<and> get_qty (PStr k) (snd (add_item (PStr k) (PInt q) logs st)) = Inr (PInt (c + q))
         \<and> (\<forall>k'. k' \<noteq> k \<longrightarrow>
               get_qty (PStr k') (snd (add_item (PStr k) (PInt q) logs st)) =
               get_qty (PStr k') st)"
  using assms
  by (auto simp: add_item_def get_qty_def py_get_def py_add_def py_setitem_def Let_def
      AList.update_conv' split: pyval.splits option.splits)

theorem add_item_adds_witness:
  "get_qty (PStr ''x'') initial_state = Inr (PInt 0)
   \<and> get_qty (PStr ''x'') (snd (add_item (PStr ''x'') (PInt 5) None initial_state)) =
       Inr (PInt 5)
   \<and> get_qty (PStr ''x'')
       (snd (add_item (PStr ''x'') (PInt 5) None
          (snd (add_item (PStr ''x'') (PInt 5) None initial_state)))) = Inr (PInt 10)"
proof -
  have g0: "get_qty (PStr ''x'') initial_state = Inr (PInt 0)"
    by (simp add: get_qty_def py_get_def initial_state_def)
  have ne: "''x'' \<noteq> []" by simp
  have g1: "get_qty (PStr ''x'') (snd (add_item (PStr ''x'') (PInt 5) None initial_state)) =
      Inr (PInt 5)"
    using add_item_adds [OF g0 ne, of 5 None] by simp
  have g2: "get_qty (PStr ''x'')
       (snd (add_item (PStr ''x'') (PInt 5) None
          (snd (add_item (PStr ''x'') (PInt 5) None initial_state)))) = Inr (PInt 10)"
    using add_item_adds [OF g1 ne, of 5 None] by simp
  from g0 g1 g2 show ?thesis by simp
qed

text \<open>
  C4 (a removal that brings the quantity of a present item to 0 or below deletes the key,
  reports an informational event, and \<^verbatim>\<open>get_qty\<close> then returns 0). The ledger is a dict
  that holds the integer \<open>c\<close> under \<open>k\<close>, \<open>qty\<close> is an integer \<open>q\<close> with \<open>c - q \<le> 0\<close>.
\<close>

theorem remove_item_deletes:
  assumes "stock_data st = PDict kvs" and "map_of kvs k = Some cur"
    and "num_of cur = Some c" and "num_of qty = Some q" and "c - q \<le> 0"
  shows "remove_item (PStr k) qty st =
           (Inr (), st\<lparr>stock_data := PDict (AList.delete k kvs),
                        journal := journal st @ [(INFO, StockReachedZero (PStr k))]\<rparr>)
         \<and> k \<notin> fst ` set (AList.delete k kvs)
         \<and> get_qty (PStr k) (snd (remove_item (PStr k) qty st)) = Inr (PInt 0)"
  using assms
  by (auto simp: remove_item_def py_isub_item_def py_sub_def py_getitem_def py_le_def
      py_delitem_def logging_def AList.update_conv' AList.delete_update_same get_qty_def
      py_get_def AList.delete_conv' AList.delete_notin_dom)

theorem remove_item_deletes_witness:
  "remove_item (PStr ''x'') (PInt 7)
     (initial_state\<lparr>stock_data := PDict [(''x'', PInt 5), (''y'', PInt 2)]\<rparr>) =
     (Inr (), initial_state\<lparr>stock_data := PDict [(''y'', PInt 2)],
                            journal := [(INFO, StockReachedZero (PStr ''x''))]\<rparr>)
   \<and> get_qty (PStr ''x'')
       (snd (remove_item (PStr ''x'') (PInt 7)
          (initial_state\<lparr>stock_data := PDict [(''x'', PInt 5), (''y'', PInt 2)]\<rparr>))) =
       Inr (PInt 0)"
  using remove_item_deletes [of "initial_state\<lparr>stock_data := PDict [(''x'', PInt 5), (''y'', PInt 2)]\<rparr>"
      "[(''x'', PInt 5), (''y'', PInt 2)]" "''x''" "PInt 5" 5 "PInt 7" 7]
  by (auto simp: initial_state_def)

text \<open>
  C5 (add with an item that is not a string or a qty that is not an integer reports a
  warning, does not raise and leaves the ledger as it was). \<^verbatim>\<open>isinstance\<close> decides what
  counts as a string and as an integer. The audit list is left as it was, too.
\<close>

theorem add_item_invalid_types:
  assumes "\<not> is_str item \<or> \<not> is_int qty"
  shows "add_item item qty logs st =
           (Inr (case logs of None \<Rightarrow> [] | Some l \<Rightarrow> l),
            st\<lparr>journal := journal st @ [(WARNING, InvalidTypes item qty)]\<rparr>)
         \<and> stock_data (snd (add_item item qty logs st)) = stock_data st"
  using assms by (auto simp: add_item_def logging_def Let_def)

theorem add_item_invalid_types_witness:
  "add_item (PInt 123) (PStr ''ten'') None initial_state =
     (Inr [], initial_state\<lparr>journal := [(WARNING, InvalidTypes (PInt 123) (PStr ''ten''))]\<rparr>)
   \<and> stock_data (snd (add_item (PInt 123) (PStr ''ten'') None initial_state)) = PDict []"
  using add_item_invalid_types [of "PInt 123" "PStr ''ten''" None initial_state]
  by (simp add: initial_state_def)



text \<open>
  What \<^verbatim>\<open>save_data\<close> and \<^verbatim>\<open>load_data\<close> contribute, for any encoder and decoder: where the
  path can be written, saving returns normally, leaves the ledger as it is and puts the
  encoder's text of the ledger at the path; and where the decoder reads that text back as
  the ledger, every later state that still has this text at the path loads the saved
  ledger, whatever it held before.
\<close>

lemma save_then_load_codec:
  assumes "files st path \<noteq> NoDirectory" and "files st path \<noteq> Locked"
    and "loads (dumps (stock_data st)) = Inr (stock_data st)"
  shows "\<exists>st1. save_data dumps path st = (Inr (), st1)
           \<and> stock_data st1 = stock_data st
           \<and> journal st1 = journal st @ [(INFO, DataSaved)]
           \<and> files st1 path = Text (dumps (stock_data st))
           \<and> (\<forall>st'. files st' path = files st1 path \<longrightarrow>
                  load_data loads path st' =
                    (Inr (), st'\<lparr>stock_data := stock_data st,
                                  journal := journal st' @ [(INFO, DataLoaded)]\<rparr>))"
  using assms
  by (cases "files st path")
    (simp_all add: save_data_def write_text_def load_data_def read_text_def logging_def)

text \<open>
  C7 (save followed by load reproduces the ledger), as stated: for every ledger from
  strings to integers. The code does not do that for every string. \<^verbatim>\<open>json.dumps\<close> writes a
  character outside ASCII as a \<^verbatim>\<open>\uXXXX\<close> escape, and \<^verbatim>\<open>json.loads\<close> reads the escape of a
  high surrogate directly followed by the escape of a low surrogate as one character. The
  item name of the two characters \<^verbatim>\<open>U+D83D\<close>, \<^verbatim>\<open>U+DE00\<close>, which \<^verbatim>\<open>add_item\<close> accepts, comes
  back from the file as the single character \<^verbatim>\<open>U+1F600\<close>: both calls return normally, and
  the ledger that was loaded is not the one that was saved.
\<close>

theorem save_then_load_counterexample:
  "run [Add (PStr [0xD83D, 0xDE00]) (PInt 1)] initial_state =
     (Inr (), initial_state\<lparr>stock_data := PDict [([0xD83D, 0xDE00], PInt 1)]\<rparr>)
   \<and> fst (save_data json_dumps default_file
            (initial_state\<lparr>stock_data := PDict [([0xD83D, 0xDE00], PInt 1)]\<rparr>)) = Inr ()
   \<and> fst (load_data json_loads default_file
            (snd (save_data json_dumps default_file
               (initial_state\<lparr>stock_data := PDict [([0xD83D, 0xDE00], PInt 1)]\<rparr>)))) = Inr ()
   \<and> stock_data (snd (load_data json_loads default_file
            (snd (save_data json_dumps default_file
               (initial_state\<lparr>stock_data := PDict [([0xD83D, 0xDE00], PInt 1)]\<rparr>))))) =
       PDict [([0x1F600], PInt 1)]
   \<and> stock_data (snd (load_data json_loads default_file
            (snd (save_data json_dumps default_file
               (initial_state\<lparr>stock_data := PDict [([0xD83D, 0xDE00], PInt 1)]\<rparr>))))) \<noteq>
       PDict [([0xD83D, 0xDE00], PInt 1)]"
proof -
  have t: "json_loads (json_dumps (PDict [([0xD83D, 0xDE00], PInt 1)])) =
      Inr (PDict [([0x1F600], PInt 1)])"
    by code_simp
  show ?thesis
    using t
    by (simp add: add_item_def py_get_def py_add_def py_setitem_def initial_state_def
        save_data_def write_text_def load_data_def read_text_def logging_def)
qed

text \<open>
  C7, amended: the ledger is a dict from strings to integers in which no item name has a
  high surrogate directly followed by a low surrogate, and the path is one where the write
  succeeds (its directory exists and the file may be opened). Then \<^verbatim>\<open>save_data\<close> returns
  normally and leaves the ledger as it is; and \<^verbatim>\<open>load_data\<close> on the same path, in any later
  state that still has the saved file there, whatever ledger that state holds, returns
  normally with \<^verbatim>\<open>stock_data\<close> equal to the ledger that was saved.
\<close>

theorem save_then_load:
  assumes "files st path \<noteq> NoDirectory" and "files st path \<noteq> Locked"
    and "stock_data st = PDict kvs" and "distinct (map fst kvs)"
    and "\<forall>kv\<in>set kvs. json_safe (fst kv) \<and> (\<exists>i. snd kv = PInt i)"
  shows "\<exists>st1. save_data json_dumps path st = (Inr (), st1)
           \<and> stock_data st1 = PDict kvs
           \<and> (\<forall>st'. files st' path = files st1 path \<longrightarrow>
                  load_data json_loads path st' =
                    (Inr (), st'\<lparr>stock_data := PDict kvs,
                                  journal := journal st' @ [(INFO, DataLoaded)]\<rparr>))"
proof -
  have "json_loads (json_dumps (stock_data st)) = Inr (stock_data st)"
    using json_roundtrip_ledger [OF assms(4,5)] assms(3) by simp
  from save_then_load_codec [of st path json_loads json_dumps, OF assms(1,2) this] assms(3)
  show ?thesis by auto
qed

theorem save_then_load_witness:
  "fst (save_data json_dumps default_file
          (initial_state\<lparr>stock_data :=
             PDict [(str ''apple'', PInt 7), ([0xE9, 0x20AC, 0x1F600, 0xDE00, 0xD83D], PInt 12)]\<rparr>)) =
     Inr ()
   \<and> stock_data (snd (load_data json_loads default_file
        ((snd (save_data json_dumps default_file
            (initial_state\<lparr>stock_data :=
               PDict [(str ''apple'', PInt 7), ([0xE9, 0x20AC, 0x1F600, 0xDE00, 0xD83D], PInt 12)]\<rparr>)))
         \<lparr>stock_data := PDict [(str ''stale'', PInt 1)]\<rparr>))) =
     PDict [(str ''apple'', PInt 7), ([0xE9, 0x20AC, 0x1F600, 0xDE00, 0xD83D], PInt 12)]"
proof -
  let ?kvs = "[(str ''apple'', PInt 7), ([0xE9, 0x20AC, 0x1F600, 0xDE00, 0xD83D], PInt 12)]"
  let ?st = "initial_state\<lparr>stock_data := PDict ?kvs\<rparr>"
  have safe: "\<forall>kv\<in>set ?kvs. json_safe (fst kv) \<and> (\<exists>i. snd kv = PInt i)"
    by (simp add: json_safe_def is_char_def high_surrogate_def low_surrogate_def cp_def)
  have dist: "distinct (map fst ?kvs)" by (simp add: cp_def)
  have f: "files ?st default_file \<noteq> NoDirectory" "files ?st default_file \<noteq> Locked"
    by (simp_all add: initial_state_def)
  have s: "stock_data ?st = PDict ?kvs" by simp
  from save_then_load [OF f s dist safe]
  obtain st1 where st1: "save_data json_dumps default_file ?st = (Inr (), st1)"
    and ld: "\<forall>st'. files st' default_file = files st1 default_file \<longrightarrow>
          load_data json_loads default_file st' =
            (Inr (), st'\<lparr>stock_data := PDict ?kvs,
                          journal := journal st' @ [(INFO, DataLoaded)]\<rparr>)"
    by blast
  have "files (st1\<lparr>stock_data := PDict [(str ''stale'', PInt 1)]\<rparr>) default_file =
      files st1 default_file" by simp
  with ld have "load_data json_loads default_file
      (st1\<lparr>stock_data := PDict [(str ''stale'', PInt 1)]\<rparr>) =
      (Inr (), st1\<lparr>stock_data := PDict [(str ''stale'', PInt 1)]\<rparr>
                 \<lparr>stock_data := PDict ?kvs,
                  journal := journal (st1\<lparr>stock_data := PDict [(str ''stale'', PInt 1)]\<rparr>)
                             @ [(INFO, DataLoaded)]\<rparr>)"
    by blast
  with st1 show ?thesis by simp
qed

text \<open>
  C8 (low stock is exactly the items below the threshold). On a dict ledger whose entries
  are integers, \<^verbatim>\<open>check_low_items(t)\<close> returns normally, and the items it returns are
  exactly the keys whose entry is strictly below \<open>t\<close>.
\<close>

theorem check_low_items_exact:
  assumes "stock_data st = PDict kvs" and "\<forall>v\<in>snd ` set kvs. is_int v"
  shows "\<exists>names. check_low_items t st = Inr names \<and>
           set names = {PStr k | k. \<exists>v x. map_of kvs k = Some v \<and> num_of v = Some x \<and> x < t}"
proof -
  have "set (map PStr (filter (is_low kvs t) (map fst kvs))) =
      {PStr k | k. \<exists>v x. map_of kvs k = Some v \<and> num_of v = Some x \<and> x < t}"
    using map_of_key_in_dom [of kvs]
    by (auto simp: is_low_iff)
  with check_low_items_dict [OF assms, of t] show ?thesis by simp
qed

theorem check_low_items_exact_witness:
  "\<exists>names. check_low_items default_threshold
       (initial_state\<lparr>stock_data := PDict [(''a'', PInt 3), (''b'', PInt 10), (''c'', PInt 4)]\<rparr>) =
       Inr names
     \<and> set names = {PStr ''a'', PStr ''c''}"
proof -
  let ?kvs = "[(''a'', PInt 3), (''b'', PInt 10), (''c'', PInt 4)] :: (string \<times> char pyval) list"
  have "{PStr k | k. \<exists>v x. map_of ?kvs k = Some v \<and> num_of v = Some x \<and> x < (5::int)} =
      {PStr ''a'', PStr ''c''}"
    by (auto split: if_splits)
  with check_low_items_exact [of "initial_state\<lparr>stock_data := PDict ?kvs\<rparr>" ?kvs 5]
  show ?thesis by (simp add: default_threshold_def)
qed

text \<open>
  C9 (remove of an absent item reports a warning, does not raise and leaves the ledger as
  it was). The ledger is a dict, the item a hashable value that is not one of its keys
  (every string that is not a key, in particular); \<open>qty\<close> is any value.
\<close>

theorem remove_item_absent:
  assumes "stock_data st = PDict kvs" and "hashable item"
    and "\<forall>k. item = PStr k \<longrightarrow> k \<notin> fst ` set kvs"
  shows "remove_item item qty st =
           (Inr (), st\<lparr>journal := journal st @ [(WARNING, RemoveNonExistent item)]\<rparr>)"
proof -
  from assms(3) have "\<forall>k. item = PStr k \<longrightarrow> map_of kvs k = None"
    by (simp add: map_of_eq_None_iff)
  with assms(1,2) show ?thesis
    by (cases item) (auto simp: remove_item_def py_isub_item_def except_KeyError_def logging_def)
qed

theorem remove_item_absent_witness:
  "remove_item (PStr ''nonexistent'') (PInt 1)
     (initial_state\<lparr>stock_data := PDict [(''apple'', PInt 7)]\<rparr>) =
     (Inr (), initial_state\<lparr>stock_data := PDict [(''apple'', PInt 7)],
                            journal := [(WARNING, RemoveNonExistent (PStr ''nonexistent''))]\<rparr>)"
  using remove_item_absent [of "initial_state\<lparr>stock_data := PDict [(''apple'', PInt 7)]\<rparr>"
      "[(''apple'', PInt 7)]" "PStr ''nonexistent''" "PInt 1"]
  by (simp add: initial_state_def)

text \<open>
  C10 (load validates nothing beyond the JSON syntax). Whatever value the decoder returns
  for the text of the file becomes \<^verbatim>\<open>stock_data\<close> as it is: a JSON array, or an object
  with a quantity that is not positive, is loaded and breaks the invariant of the ledger.
\<close>

theorem load_data_verbatim:
  assumes "files st path = Text content" and "loads content = Inr v"
  shows "load_data loads path st =
           (Inr (), st\<lparr>stock_data := v, journal := journal st @ [(INFO, DataLoaded)]\<rparr>)"
  using assms by (simp add: load_data_def read_text_def logging_def)

theorem load_data_verbatim_witness:
  "stock_data (snd (load_data json_loads default_file
       (initial_state\<lparr>files := (\<lambda>p. Text (str ''[1, 2]''))\<rparr>))) = PList [PInt 1, PInt 2]
   \<and> \<not> positive_ledger (stock_data (snd (load_data json_loads default_file
       (initial_state\<lparr>files := (\<lambda>p. Text (str ''[1, 2]''))\<rparr>))))
   \<and> \<not> positive_ledger (stock_data (snd (load_data json_loads default_file
       (initial_state\<lparr>files :=
          (\<lambda>p. Text (json_dumps (PDict [(str ''a'', PInt (- 3))])))\<rparr>))))"
proof -
  have a: "json_loads (str ''[1, 2]'') = Inr (PList [PInt 1, PInt 2])" by code_simp
  have b: "json_loads (json_dumps (PDict [(str ''a'', PInt (- 3))])) =
      Inr (PDict [(str ''a'', PInt (- 3))])"
    by code_simp
  show ?thesis
    using load_data_verbatim [of "initial_state\<lparr>files := (\<lambda>p. Text (str ''[1, 2]''))\<rparr>"
        default_file "str ''[1, 2]''" json_loads, OF _ a]
      load_data_verbatim [of "initial_state\<lparr>files :=
          (\<lambda>p. Text (json_dumps (PDict [(str ''a'', PInt (- 3))])))\<rparr>"
        default_file "json_dumps (PDict [(str ''a'', PInt (- 3))])" json_loads, OF _ b]
    by (simp add: initial_state_def positive_ledger_def positive_entry_def)
qed

end
